theory Spec2Isabelle
  imports Main "HOL-Library.Word"
begin

section \<open>The base bundle extension: data model\<close>

text \<open>
  The class \<open>CBextBaseBundleExtension\<close> of \<open>BextBaseBundleExtension.h\<close> is embedded over an
  explicit heap. Running into undefined behaviour of C++ (a null or dangling pointer is
  dereferenced) is a result of its own, \<open>Inl\<close> of a \<open>fault\<close>; a call that returns is
  \<open>Inr\<close> of what it returns together with the heap it leaves.
\<close>

type_synonym addr = nat

datatype 'a ptr = NULL | Ptr 'a

datatype fault = Null_dereference | Dangling_pointer

text \<open>\<open>HRESULT\<close>, \<open>LONG\<close> and \<open>ULONG\<close> are 32 bits wide; a \<open>GUID\<close> is 128 bits wide.\<close>

type_synonym HRESULT = "32 word"
type_synonym LONG = "32 word"
type_synonym ULONG = "32 word"
type_synonym GUID = "128 word"
type_synonym WCHAR = "16 word"

text \<open>A pointer to a constant string of the caller is the string it designates.\<close>

type_synonym LPCWSTR = "WCHAR list ptr"

text \<open>An untyped pointer holds the address of an object, or is null.\<close>

type_synonym LPVOID = "addr ptr"

text \<open>The status codes and the test macro \<open>FAILED\<close> of \<open>winerror.h\<close>.\<close>

definition S_OK :: HRESULT where
  "S_OK = 0"

definition E_NOTIMPL :: HRESULT where
  "E_NOTIMPL = 0x80004001"

definition E_NOINTERFACE :: HRESULT where
  "E_NOINTERFACE = 0x80004002"

definition E_OUTOFMEMORY :: HRESULT where
  "E_OUTOFMEMORY = 0x8007000E"

definition E_INVALIDARG :: HRESULT where
  "E_INVALIDARG = 0x80070057"

definition FAILED :: "HRESULT \<Rightarrow> bool" where
  "FAILED hr = (sint hr < 0)"

text \<open>The interface identifier of \<open>IUnknown\<close>, 00000000-0000-0000-C000-000000000046.\<close>

definition IID_IUnknown :: GUID where
  "IID_IUnknown = 0x0000000000000000C000000000000046"

definition IsEqualIID :: "GUID \<Rightarrow> GUID \<Rightarrow> bool" where
  "IsEqualIID a b = (a = b)"

text \<open>The three data members of the class, in the order of their declaration.\<close>

record CBextBaseBundleExtension =
  m_pEngine :: "addr ptr"
  m_sczBundleExtensionDataPath :: "addr ptr"
  m_cReferences :: LONG

text \<open>
  Modelled from the spec: the structure \<open>BUNDLE_EXTENSION_CREATE_ARGS\<close> is declared in
  \<open>BundleExtension.h\<close>, which is not part of the sources. It exposes a data-path string
  field, and no other field is read by this class.
\<close>

record BUNDLE_EXTENSION_CREATE_ARGS =
  wzBundleExtensionDataPath :: LPCWSTR

text \<open>
  Modelled from the spec: the host engine is not part of the sources. It is an opaque
  reference-counted handle exposing increment and decrement operations, so an engine
  object is its reference count. The heap holds the extension objects, the string
  buffers that the string utilities allocate, and the engine objects.
\<close>

record heap =
  ext_objs :: "addr \<rightharpoonup> CBextBaseBundleExtension"
  str_bufs :: "addr \<rightharpoonup> WCHAR list"
  engine_refs :: "addr \<rightharpoonup> int"

section \<open>The collaborators of the class\<close>

text \<open>
  Modelled from the spec: \<open>IBundleExtensionEngine::AddRef\<close> and \<open>Release\<close> are implemented
  by the host engine. They increment and decrement the reference count of the engine
  object; calling them through a pointer to no engine object is undefined.
\<close>

definition Engine_AddRef :: "heap \<Rightarrow> addr \<Rightarrow> fault + heap" where
  "Engine_AddRef h e =
     (case engine_refs h e of
        None \<Rightarrow> Inl Dangling_pointer
      | Some n \<Rightarrow> Inr (h\<lparr>engine_refs := (engine_refs h)(e \<mapsto> n + 1)\<rparr>))"

definition Engine_Release :: "heap \<Rightarrow> addr \<Rightarrow> fault + heap" where
  "Engine_Release h e =
     (case engine_refs h e of
        None \<Rightarrow> Inl Dangling_pointer
      | Some n \<Rightarrow> Inr (h\<lparr>engine_refs := (engine_refs h)(e \<mapsto> n - 1)\<rparr>))"

text \<open>
  Modelled from the spec: \<open>StrFree\<close> of the string utilities frees a string buffer.
\<close>

definition StrFree :: "(addr \<rightharpoonup> WCHAR list) \<Rightarrow> addr \<Rightarrow> (addr \<rightharpoonup> WCHAR list)" where
  "StrFree sh p = sh(p := None)"

text \<open>
  \<open>StrAllocString\<close> of the string utilities is a parameter of the model. It receives the
  string buffers, the destination pointer as it is, the source string and a length,
  and returns a status, the destination pointer as it leaves it and the string buffers
  as it leaves them.
\<close>

type_synonym str_alloc =
  "(addr \<rightharpoonup> WCHAR list) \<Rightarrow> addr ptr \<Rightarrow> LPCWSTR \<Rightarrow> nat
     \<Rightarrow> HRESULT \<times> addr ptr \<times> (addr \<rightharpoonup> WCHAR list)"

section \<open>The member functions\<close>

text \<open>
  \<open>InterlockedIncrement\<close> and \<open>InterlockedDecrement\<close> on \<open>this->m_cReferences\<close>: one
  indivisible step each, that returns the new value. The arithmetic is that of a
  32-bit \<open>long\<close> and wraps around.
\<close>

definition InterlockedIncrement :: "heap \<Rightarrow> addr \<Rightarrow> fault + (LONG \<times> heap)" where
  "InterlockedIncrement h this =
     (case ext_objs h this of
        None \<Rightarrow> Inl Dangling_pointer
      | Some obj \<Rightarrow>
          let l = m_cReferences obj + 1
          in Inr (l, h\<lparr>ext_objs := (ext_objs h)(this \<mapsto> obj\<lparr>m_cReferences := l\<rparr>)\<rparr>))"

definition InterlockedDecrement :: "heap \<Rightarrow> addr \<Rightarrow> fault + (LONG \<times> heap)" where
  "InterlockedDecrement h this =
     (case ext_objs h this of
        None \<Rightarrow> Inl Dangling_pointer
      | Some obj \<Rightarrow>
          let l = m_cReferences obj - 1
          in Inr (l, h\<lparr>ext_objs := (ext_objs h)(this \<mapsto> obj\<lparr>m_cReferences := l\<rparr>)\<rparr>))"

definition AddRef :: "heap \<Rightarrow> addr \<Rightarrow> fault + (ULONG \<times> heap)" where
  "AddRef h this = InterlockedIncrement h this"

text \<open>
  The constructor initialises the object at the address \<open>this\<close>: the count is 1, the
  engine is referenced once more and stored, and the data path is null.
\<close>

definition CBextBaseBundleExtension_ctor :: "heap \<Rightarrow> addr \<Rightarrow> addr ptr \<Rightarrow> fault + heap" where
  "CBextBaseBundleExtension_ctor h this pEngine =
     (case pEngine of
        NULL \<Rightarrow> Inl Null_dereference
      | Ptr e \<Rightarrow>
          (case Engine_AddRef h e of
             Inl f \<Rightarrow> Inl f
           | Inr h1 \<Rightarrow>
               Inr (h1\<lparr>ext_objs := (ext_objs h1)(this \<mapsto>
                      \<lparr>m_pEngine = Ptr e,
                       m_sczBundleExtensionDataPath = NULL,
                       m_cReferences = 1\<rparr>)\<rparr>)))"

text \<open>
  The destructor: \<open>ReleaseNullObject(m_pEngine)\<close> releases the engine and nulls the
  member when the member is not null; \<open>ReleaseStr(m_sczBundleExtensionDataPath)\<close> frees
  the string when the member is not null.
\<close>

definition CBextBaseBundleExtension_dtor :: "heap \<Rightarrow> addr \<Rightarrow> fault + heap" where
  "CBextBaseBundleExtension_dtor h this =
     (case ext_objs h this of
        None \<Rightarrow> Inl Dangling_pointer
      | Some obj \<Rightarrow>
          (case (case m_pEngine obj of
                   NULL \<Rightarrow> Inr h
                 | Ptr e \<Rightarrow>
                     (case Engine_Release h e of
                        Inl f \<Rightarrow> Inl f
                      | Inr h1 \<Rightarrow>
                          Inr (h1\<lparr>ext_objs := (ext_objs h1)(this \<mapsto> obj\<lparr>m_pEngine := NULL\<rparr>)\<rparr>)))
           of
             Inl f \<Rightarrow> Inl f
           | Inr h2 \<Rightarrow>
               (case m_sczBundleExtensionDataPath obj of
                  NULL \<Rightarrow> Inr h2
                | Ptr p \<Rightarrow> Inr (h2\<lparr>str_bufs := StrFree (str_bufs h2) p\<rparr>))))"

text \<open>\<open>delete this\<close> runs the destructor and gives the storage of the object back.\<close>

definition delete_this :: "heap \<Rightarrow> addr \<Rightarrow> fault + heap" where
  "delete_this h this =
     (case CBextBaseBundleExtension_dtor h this of
        Inl f \<Rightarrow> Inl f
      | Inr h1 \<Rightarrow> Inr (h1\<lparr>ext_objs := (ext_objs h1)(this := None)\<rparr>))"

text \<open>\<open>0 < l\<close> compares a signed \<open>long\<close>.\<close>

definition Release :: "heap \<Rightarrow> addr \<Rightarrow> fault + (ULONG \<times> heap)" where
  "Release h this =
     (case InterlockedDecrement h this of
        Inl f \<Rightarrow> Inl f
      | Inr (l, h1) \<Rightarrow>
          if 0 < sint l then Inr (l, h1)
          else (case delete_this h1 this of
                  Inl f \<Rightarrow> Inl f
                | Inr h2 \<Rightarrow> Inr (0, h2)))"

text \<open>
  \<open>QueryInterface\<close>. The identifier of \<open>IBundleExtension\<close> is declared in
  \<open>IBundleExtension.h\<close>, which is not part of the sources: \<open>uuidof_IBundleExtension\<close> is a
  parameter. The argument \<open>ppvObject\<close> is null or points to a slot of the caller, given
  by what the slot holds; the second component of the result is \<open>ppvObject\<close> with what
  the slot holds afterwards. The slot is cleared first, and a failure after that leaves
  it cleared. Both casts of \<open>this\<close> yield the address of the object.
\<close>

definition QueryInterface ::
  "GUID \<Rightarrow> heap \<Rightarrow> addr \<Rightarrow> GUID \<Rightarrow> LPVOID ptr \<Rightarrow> fault + (HRESULT \<times> LPVOID ptr \<times> heap)" where
  "QueryInterface uuidof_IBundleExtension h this riid ppvObject =
     (case ppvObject of
        NULL \<Rightarrow> Inr (E_INVALIDARG, NULL, h)
      | Ptr _ \<Rightarrow>
          (case (if IsEqualIID uuidof_IBundleExtension riid then Some (Ptr this)
                 else if IsEqualIID IID_IUnknown riid then Some (Ptr this)
                 else None)
           of
             None \<Rightarrow> Inr (E_NOINTERFACE, Ptr NULL, h)
           | Some pvObject \<Rightarrow>
               (case AddRef h this of
                  Inl f \<Rightarrow> Inl f
                | Inr (_, h1) \<Rightarrow> Inr (S_OK, Ptr pvObject, h1))))"

text \<open>The two extension points ignore their arguments.\<close>

definition Search :: "heap \<Rightarrow> addr \<Rightarrow> LPCWSTR \<Rightarrow> LPCWSTR \<Rightarrow> fault + (HRESULT \<times> heap)" where
  "Search h this wzId wzVariable = Inr (E_NOTIMPL, h)"

definition BundleExtensionProc ::
  "heap \<Rightarrow> addr \<Rightarrow> 32 word \<Rightarrow> LPVOID \<Rightarrow> LPVOID \<Rightarrow> LPVOID \<Rightarrow> fault + (HRESULT \<times> heap)" where
  "BundleExtensionProc h this message pvArgs pvResults pvContext = Inr (E_NOTIMPL, h)"

text \<open>
  \<open>Initialize\<close>. The argument \<open>pCreateArgs\<close> is dereferenced first, to pass the string to
  \<open>StrAllocString\<close>. \<open>ExitOnFailure\<close> jumps to \<open>LExit\<close> when the status is a failure, and
  \<open>LExit\<close> is the next statement.
\<close>

definition Initialize ::
  "str_alloc \<Rightarrow> heap \<Rightarrow> addr \<Rightarrow> BUNDLE_EXTENSION_CREATE_ARGS ptr \<Rightarrow> fault + (HRESULT \<times> heap)" where
  "Initialize StrAllocString h this pCreateArgs =
     (case pCreateArgs of
        NULL \<Rightarrow> Inl Null_dereference
      | Ptr args \<Rightarrow>
          (case ext_objs h this of
             None \<Rightarrow> Inl Dangling_pointer
           | Some obj \<Rightarrow>
               (case StrAllocString (str_bufs h) (m_sczBundleExtensionDataPath obj)
                       (wzBundleExtensionDataPath args) 0 of
                  (hr, p, sh) \<Rightarrow>
                    let h1 = h\<lparr>ext_objs := (ext_objs h)(this \<mapsto>
                                 obj\<lparr>m_sczBundleExtensionDataPath := p\<rparr>),
                               str_bufs := sh\<rparr>
                    in if FAILED hr then Inr (hr, h1) else Inr (hr, h1))))"

section \<open>Sequences of calls on one object\<close>

text \<open>
  The calls that a holder of the object makes through \<open>IUnknown\<close>, and what they return.
\<close>

datatype call =
    Call_QueryInterface GUID "LPVOID ptr"
  | Call_AddRef
  | Call_Release

datatype ret =
    Ret_QueryInterface HRESULT "LPVOID ptr"
  | Ret_AddRef ULONG
  | Ret_Release ULONG

text \<open>
  A member function is called through the object: calling one on storage that holds no
  object (never constructed, or deleted) is undefined.
\<close>

definition invoke :: "GUID \<Rightarrow> heap \<Rightarrow> addr \<Rightarrow> call \<Rightarrow> fault + (ret \<times> heap)" where
  "invoke uuidof_IBundleExtension h this c =
     (case ext_objs h this of
        None \<Rightarrow> Inl Dangling_pointer
      | Some _ \<Rightarrow>
          (case c of
             Call_QueryInterface riid ppvObject \<Rightarrow>
               (case QueryInterface uuidof_IBundleExtension h this riid ppvObject of
                  Inl f \<Rightarrow> Inl f
                | Inr (hr, slot, h1) \<Rightarrow> Inr (Ret_QueryInterface hr slot, h1))
           | Call_AddRef \<Rightarrow>
               (case AddRef h this of
                  Inl f \<Rightarrow> Inl f
                | Inr (n, h1) \<Rightarrow> Inr (Ret_AddRef n, h1))
           | Call_Release \<Rightarrow>
               (case Release h this of
                  Inl f \<Rightarrow> Inl f
                | Inr (n, h1) \<Rightarrow> Inr (Ret_Release n, h1))))"

fun run :: "GUID \<Rightarrow> heap \<Rightarrow> addr \<Rightarrow> call list \<Rightarrow> fault + (ret list \<times> heap)" where
  "run u h this [] = Inr ([], h)"
| "run u h this (c # cs) =
     (case invoke u h this c of
        Inl f \<Rightarrow> Inl f
      | Inr (r, h1) \<Rightarrow>
          (case run u h1 this cs of
             Inl f \<Rightarrow> Inl f
           | Inr (rs, h2) \<Rightarrow> Inr (r # rs, h2)))"

text \<open>
  Counting, in the words of the specification. A call takes a reference when it is
  \<open>AddRef\<close> or a \<open>QueryInterface\<close> that succeeds, which is one with an output slot and
  one of the two supported identifiers (lemma \<open>QueryInterface_success_iff\<close> below).
  The references outstanding after a sequence of calls are the one of the construction
  and the ones taken, less the ones released.
\<close>

fun takes_reference :: "GUID \<Rightarrow> call \<Rightarrow> bool" where
  "takes_reference u (Call_QueryInterface riid ppvObject) =
     (ppvObject \<noteq> NULL \<and> (riid = u \<or> riid = IID_IUnknown))"
| "takes_reference u Call_AddRef = True"
| "takes_reference u Call_Release = False"

definition increments :: "GUID \<Rightarrow> call list \<Rightarrow> nat" where
  "increments u cs = length (filter (takes_reference u) cs)"

definition releases :: "call list \<Rightarrow> nat" where
  "releases cs = length (filter (\<lambda>c. c = Call_Release) cs)"

definition outstanding :: "GUID \<Rightarrow> call list \<Rightarrow> int" where
  "outstanding u cs = 1 + int (increments u cs) - int (releases cs)"

text \<open>
  What a sequence of calls does to the object: it completes when every call returns,
  and it has destroyed the object when it completes and the object is gone.
\<close>

definition completes :: "GUID \<Rightarrow> heap \<Rightarrow> addr \<Rightarrow> call list \<Rightarrow> bool" where
  "completes u h this cs = (case run u h this cs of Inl f \<Rightarrow> False | Inr _ \<Rightarrow> True)"

definition destroyed_by :: "GUID \<Rightarrow> heap \<Rightarrow> addr \<Rightarrow> call list \<Rightarrow> bool" where
  "destroyed_by u h this cs =
     (case run u h this cs of
        Inl f \<Rightarrow> False
      | Inr (rs, h') \<Rightarrow> ext_objs h' this = None)"

text \<open>The string that the object exposes: what its data path member points to.\<close>

definition data_path :: "heap \<Rightarrow> addr \<Rightarrow> WCHAR list option" where
  "data_path h this =
     (case ext_objs h this of
        None \<Rightarrow> None
      | Some obj \<Rightarrow>
          (case m_sczBundleExtensionDataPath obj of
             NULL \<Rightarrow> None
           | Ptr p \<Rightarrow> str_bufs h p))"

text \<open>
  Modelled from the spec: \<open>StrAllocString\<close> is not part of the sources. When it is given
  a string and the length 0, it either fails with a failure status, or returns \<open>S_OK\<close>
  and leaves the destination pointing to a buffer that holds a copy of the string.
\<close>

definition copies_or_fails :: "str_alloc \<Rightarrow> bool" where
  "copies_or_fails alloc =
     (\<forall>sh dst s.
        case alloc sh dst (Ptr s) 0 of
          (hr, p, sh') \<Rightarrow> FAILED hr \<or> (hr = S_OK \<and> (\<exists>q. p = Ptr q \<and> sh' q = Some s)))"

text \<open>
  Two heaps agree on the reference counting of the object at \<open>this\<close> when they have the
  same engine objects and the same extension objects but, at \<open>this\<close>, possibly another
  data path member. The string buffers are left out of the comparison.
\<close>

definition refs_agree :: "addr \<Rightarrow> heap \<Rightarrow> heap \<Rightarrow> bool" where
  "refs_agree this h h' =
     (engine_refs h = engine_refs h' \<and>
      (\<forall>a. a \<noteq> this \<longrightarrow> ext_objs h a = ext_objs h' a) \<and>
      (case (ext_objs h this, ext_objs h' this) of
         (None, None) \<Rightarrow> True
       | (Some obj, Some obj') \<Rightarrow>
           m_cReferences obj = m_cReferences obj' \<and> m_pEngine obj = m_pEngine obj'
       | _ \<Rightarrow> False))"

text \<open>
  Two runs have the same outcome for reference counting: the same fault, or the same
  returned values and heaps that agree on the reference counting.
\<close>

definition same_outcome ::
  "addr \<Rightarrow> fault + (ret list \<times> heap) \<Rightarrow> fault + (ret list \<times> heap) \<Rightarrow> bool" where
  "same_outcome this r r' =
     (case (r, r') of
        (Inl f, Inl f') \<Rightarrow> f = f'
      | (Inr (rs, h), Inr (rs', h')) \<Rightarrow> rs = rs' \<and> refs_agree this h h'
      | _ \<Rightarrow> False)"

section \<open>Example values\<close>

text \<open>
  An identifier that stands for the one of \<open>IBundleExtension\<close>, a heap with one engine
  object at address 5 that is referenced 3 times, a string, and two string allocators:
  one that copies into the buffer at a given address, one that is out of memory.
\<close>

definition example_uuid :: GUID where
  "example_uuid = 0x93123C9D796B4FCDA5076EDEF9A925FD"

definition example_heap :: heap where
  "example_heap = \<lparr>ext_objs = Map.empty, str_bufs = Map.empty, engine_refs = [5 \<mapsto> 3]\<rparr>"

definition example_path :: "WCHAR list" where
  "example_path = [0x43, 0x3A, 0x5C, 0x78]"

definition example_alloc_copy :: "addr \<Rightarrow> str_alloc" where
  "example_alloc_copy q sh dst src cch =
     (case src of
        NULL \<Rightarrow> (E_INVALIDARG, dst, sh)
      | Ptr s \<Rightarrow> (S_OK, Ptr q, sh(q \<mapsto> s)))"

definition example_alloc_fail :: str_alloc where
  "example_alloc_fail sh dst src cch = (E_OUTOFMEMORY, dst, sh)"

text \<open>The object of the examples, at address 1, once constructed.\<close>

definition example_obj :: CBextBaseBundleExtension where
  "example_obj =
     \<lparr>m_pEngine = Ptr 5, m_sczBundleExtensionDataPath = NULL, m_cReferences = 1\<rparr>"

definition example_live :: heap where
  "example_live =
     \<lparr>ext_objs = [1 \<mapsto> example_obj], str_bufs = Map.empty, engine_refs = [5 \<mapsto> 4]\<rparr>"

text \<open>
  The same object once initialised with the example string in the buffer at address 9,
  and once more with a second reference outstanding.
\<close>

definition example_ready :: heap where
  "example_ready =
     \<lparr>ext_objs = [1 \<mapsto> example_obj\<lparr>m_sczBundleExtensionDataPath := Ptr 9\<rparr>],
      str_bufs = [9 \<mapsto> example_path],
      engine_refs = [5 \<mapsto> 4]\<rparr>"

definition example_shared :: heap where
  "example_shared =
     \<lparr>ext_objs = [1 \<mapsto> example_obj\<lparr>m_sczBundleExtensionDataPath := Ptr 9, m_cReferences := 2\<rparr>],
      str_bufs = [9 \<mapsto> example_path],
      engine_refs = [5 \<mapsto> 4]\<rparr>"

text \<open>
  Two sequences of calls: one that takes two references, fails to take a third, and
  releases three; one that takes \<open>2 ^ 31\<close> references and releases one.
\<close>

definition example_calls :: "call list" where
  "example_calls =
     [Call_AddRef, Call_QueryInterface IID_IUnknown (Ptr NULL), Call_Release,
      Call_QueryInterface 0x2A (Ptr NULL), Call_Release, Call_Release]"

definition overflow_calls :: "call list" where
  "overflow_calls = replicate (2 ^ 31) Call_AddRef @ [Call_Release]"

section \<open>Results about single calls\<close>

text \<open>
  C3: whatever the capability identifier, the object and the heap, \<open>QueryInterface\<close> with a
  null output-slot pointer returns \<open>E_INVALIDARG\<close>, there is no slot to write to, and the
  heap it leaves is the heap it found: the reference count and every other field of
  every object are unchanged.
\<close>

theorem QueryInterface_null_slot:
  "QueryInterface uuidof_IBundleExtension h this riid NULL = Inr (E_INVALIDARG, NULL, h)"
  by (simp add: QueryInterface_def)

text \<open>
  C5: whatever their arguments, the object and the heap, the base-class \<open>Search\<close> and
  \<open>BundleExtensionProc\<close> return \<open>E_NOTIMPL\<close> and leave the heap as they found it, so
  the reference count, the engine reference and the data path are unchanged.
\<close>

theorem Search_BundleExtensionProc_not_implemented:
  "Search h this wzId wzVariable = Inr (E_NOTIMPL, h) \<and>
   BundleExtensionProc h this message pvArgs pvResults pvContext = Inr (E_NOTIMPL, h)"
  by (simp add: Search_def BundleExtensionProc_def)

section \<open>Single steps on a live object\<close>

lemma AddRef_live:
  "ext_objs h this = Some obj \<Longrightarrow>
   AddRef h this =
     Inr (m_cReferences obj + 1,
          h\<lparr>ext_objs := (ext_objs h)(this \<mapsto> obj\<lparr>m_cReferences := m_cReferences obj + 1\<rparr>)\<rparr>)"
  by (simp add: AddRef_def InterlockedIncrement_def Let_def)

lemma Release_keeps:
  "ext_objs h this = Some obj \<Longrightarrow> 0 < sint (m_cReferences obj - 1) \<Longrightarrow>
   Release h this =
     Inr (m_cReferences obj - 1,
          h\<lparr>ext_objs := (ext_objs h)(this \<mapsto> obj\<lparr>m_cReferences := m_cReferences obj - 1\<rparr>)\<rparr>)"
  by (simp add: Release_def InterlockedDecrement_def Let_def)

lemma Release_destroys:
  assumes "ext_objs h this = Some obj"
    and "\<not> 0 < sint (m_cReferences obj - 1)"
    and "m_pEngine obj = Ptr e"
    and "engine_refs h e = Some n"
  shows "Release h this =
     Inr (0, h\<lparr>ext_objs := (ext_objs h)(this := None),
               str_bufs := (case m_sczBundleExtensionDataPath obj of
                              NULL \<Rightarrow> str_bufs h
                            | Ptr p \<Rightarrow> (str_bufs h)(p := None)),
               engine_refs := (engine_refs h)(e \<mapsto> n - 1)\<rparr>)"
  using assms
  by (simp add: Release_def InterlockedDecrement_def Let_def delete_this_def
      CBextBaseBundleExtension_dtor_def Engine_Release_def StrFree_def split: ptr.split)

lemma QueryInterface_live:
  "ext_objs h this = Some obj \<Longrightarrow>
   QueryInterface u h this riid (Ptr old) =
     (if riid = u \<or> riid = IID_IUnknown
      then Inr (S_OK, Ptr (Ptr this),
                h\<lparr>ext_objs := (ext_objs h)(this \<mapsto> obj\<lparr>m_cReferences := m_cReferences obj + 1\<rparr>)\<rparr>)
      else Inr (E_NOINTERFACE, Ptr NULL, h))"
  by (auto simp add: QueryInterface_def IsEqualIID_def AddRef_live)

lemma status_codes_distinct:
  "S_OK \<noteq> E_NOINTERFACE" "S_OK \<noteq> E_INVALIDARG" "S_OK \<noteq> E_NOTIMPL" "S_OK \<noteq> E_OUTOFMEMORY"
  "E_NOINTERFACE \<noteq> E_INVALIDARG" "FAILED E_NOINTERFACE" "FAILED E_INVALIDARG"
  "FAILED E_NOTIMPL" "FAILED E_OUTOFMEMORY" "\<not> FAILED S_OK"
  by (simp_all add: S_OK_def E_NOINTERFACE_def E_INVALIDARG_def E_NOTIMPL_def
      E_OUTOFMEMORY_def FAILED_def)

lemma QueryInterface_success_iff:
  assumes "ext_objs h this = Some obj"
  shows "(\<exists>slot h'. QueryInterface u h this riid ppvObject = Inr (S_OK, slot, h')) \<longleftrightarrow>
         takes_reference u (Call_QueryInterface riid ppvObject)"
proof (cases ppvObject)
  case NULL
  then show ?thesis
    by (simp add: QueryInterface_def status_codes_distinct(2)[symmetric])
next
  case (Ptr old)
  then show ?thesis
    using QueryInterface_live[OF assms, of u riid old]
    by (auto simp add: status_codes_distinct(1)[symmetric])
qed

section \<open>Results about single calls, continued\<close>

text \<open>
  C1: \<open>Release\<close> on a live object, whose engine member points to an engine object,
  decrements the reference count in one step. If the new count is greater than zero,
  \<open>Release\<close> returns the new count, and the heap differs only in the count of the
  object, which is still there. If the new count is zero, \<open>Release\<close> returns zero and
  the object is destroyed: the engine object has one reference less, the string buffer
  of the data path (if the member is not null) is freed, and the object is gone from
  the heap.
\<close>

theorem Release_decrements_then_destroys_at_zero:
  assumes "ext_objs h this = Some obj"
    and "m_pEngine obj = Ptr e"
    and "engine_refs h e = Some n"
  shows "(0 < sint (m_cReferences obj - 1) \<longrightarrow>
            Release h this =
              Inr (m_cReferences obj - 1,
                   h\<lparr>ext_objs := (ext_objs h)(this \<mapsto>
                        obj\<lparr>m_cReferences := m_cReferences obj - 1\<rparr>)\<rparr>)) \<and>
         (m_cReferences obj - 1 = 0 \<longrightarrow>
            Release h this =
              Inr (0, h\<lparr>ext_objs := (ext_objs h)(this := None),
                        str_bufs := (case m_sczBundleExtensionDataPath obj of
                                       NULL \<Rightarrow> str_bufs h
                                     | Ptr p \<Rightarrow> (str_bufs h)(p := None)),
                        engine_refs := (engine_refs h)(e \<mapsto> n - 1)\<rparr>))"
proof (intro conjI impI)
  assume "0 < sint (m_cReferences obj - 1)"
  with assms(1) show "Release h this =
      Inr (m_cReferences obj - 1,
           h\<lparr>ext_objs := (ext_objs h)(this \<mapsto> obj\<lparr>m_cReferences := m_cReferences obj - 1\<rparr>)\<rparr>)"
    by (rule Release_keeps)
next
  assume "m_cReferences obj - 1 = 0"
  then have "\<not> 0 < sint (m_cReferences obj - 1)"
    by simp
  with assms show "Release h this =
      Inr (0, h\<lparr>ext_objs := (ext_objs h)(this := None),
                str_bufs := (case m_sczBundleExtensionDataPath obj of
                               NULL \<Rightarrow> str_bufs h
                             | Ptr p \<Rightarrow> (str_bufs h)(p := None)),
                engine_refs := (engine_refs h)(e \<mapsto> n - 1)\<rparr>)"
    by (simp add: Release_destroys)
qed

theorem Release_decrements_then_destroys_at_zero_witness:
  "ext_objs example_shared 1 =
     Some (example_obj\<lparr>m_sczBundleExtensionDataPath := Ptr 9, m_cReferences := 2\<rparr>) \<and>
   engine_refs example_shared 5 = Some 4 \<and>
   Release example_shared 1 = Inr (1, example_ready) \<and>
   ext_objs example_ready 1 = Some (example_obj\<lparr>m_sczBundleExtensionDataPath := Ptr 9\<rparr>) \<and>
   engine_refs example_ready 5 = Some 4 \<and>
   Release example_ready 1 = Inr (0, example_heap)"
  using
    Release_decrements_then_destroys_at_zero
      [of example_shared 1
          "example_obj\<lparr>m_sczBundleExtensionDataPath := Ptr 9, m_cReferences := 2\<rparr>" 5 4]
    Release_decrements_then_destroys_at_zero
      [of example_ready 1 "example_obj\<lparr>m_sczBundleExtensionDataPath := Ptr 9\<rparr>" 5 4]
  by (simp add: example_shared_def example_ready_def example_obj_def example_heap_def)

text \<open>
  C4: on a live object and with an output slot, whatever the slot held,
  \<open>QueryInterface\<close> for the identifier of \<open>IBundleExtension\<close> or of \<open>IUnknown\<close> returns
  \<open>S_OK\<close>, leaves the address of the object itself in the slot, and adds exactly 1 to
  the reference count (in the arithmetic of the 32-bit counter), changing nothing else;
  for any other identifier it returns \<open>E_NOINTERFACE\<close>, leaves the slot null and leaves
  the heap, so the reference count, as it was.
\<close>

theorem QueryInterface_supported_or_no_interface:
  assumes "ext_objs h this = Some obj"
  shows "QueryInterface uuidof_IBundleExtension h this riid (Ptr old) =
     (if riid = uuidof_IBundleExtension \<or> riid = IID_IUnknown
      then Inr (S_OK, Ptr (Ptr this),
                h\<lparr>ext_objs := (ext_objs h)(this \<mapsto>
                     obj\<lparr>m_cReferences := m_cReferences obj + 1\<rparr>)\<rparr>)
      else Inr (E_NOINTERFACE, Ptr NULL, h))"
  using assms by (rule QueryInterface_live)

theorem QueryInterface_supported_or_no_interface_witness:
  "ext_objs example_ready 1 = Some (example_obj\<lparr>m_sczBundleExtensionDataPath := Ptr 9\<rparr>) \<and>
   QueryInterface example_uuid example_ready 1 example_uuid (Ptr (Ptr 77)) =
     Inr (S_OK, Ptr (Ptr 1), example_shared) \<and>
   QueryInterface example_uuid example_ready 1 IID_IUnknown (Ptr NULL) =
     Inr (S_OK, Ptr (Ptr 1), example_shared) \<and>
   QueryInterface example_uuid example_ready 1 0x2A (Ptr (Ptr 77)) =
     Inr (E_NOINTERFACE, Ptr NULL, example_ready)"
  using
    QueryInterface_supported_or_no_interface
      [of example_ready 1 "example_obj\<lparr>m_sczBundleExtensionDataPath := Ptr 9\<rparr>"
          example_uuid example_uuid "Ptr 77"]
    QueryInterface_supported_or_no_interface
      [of example_ready 1 "example_obj\<lparr>m_sczBundleExtensionDataPath := Ptr 9\<rparr>"
          example_uuid IID_IUnknown NULL]
    QueryInterface_supported_or_no_interface
      [of example_ready 1 "example_obj\<lparr>m_sczBundleExtensionDataPath := Ptr 9\<rparr>"
          example_uuid "0x2A" "Ptr 77"]
  by (simp add: example_shared_def example_ready_def example_obj_def example_uuid_def
      IID_IUnknown_def)

text \<open>
  C9: \<open>Initialize\<close> has no branch for a null \<open>pCreateArgs\<close>. Whatever the string
  allocator, the heap and the object, \<open>Initialize\<close> with a null argument dereferences the
  null pointer, which is undefined behaviour, and returns no status; \<open>QueryInterface\<close>
  with a null output-slot pointer, in contrast, returns \<open>E_INVALIDARG\<close>. With an
  argument that is not null and a live object, \<open>Initialize\<close> does return a status.
\<close>

theorem Initialize_null_args_undefined:
  "Initialize StrAllocString h this NULL = Inl Null_dereference \<and>
   QueryInterface uuidof_IBundleExtension h this riid NULL = Inr (E_INVALIDARG, NULL, h) \<and>
   (ext_objs h this \<noteq> None \<longrightarrow>
      (\<exists>hr h'. Initialize StrAllocString h this (Ptr args) = Inr (hr, h')))"
  by (auto simp add: Initialize_def QueryInterface_def Let_def split: prod.split)

theorem Initialize_null_args_undefined_witness:
  "ext_objs example_live 1 \<noteq> None \<and>
   Initialize (example_alloc_copy 9) example_live 1 NULL = Inl Null_dereference \<and>
   QueryInterface example_uuid example_live 1 IID_IUnknown NULL =
     Inr (E_INVALIDARG, NULL, example_live) \<and>
   (\<exists>hr h'. Initialize (example_alloc_copy 9) example_live 1
               (Ptr \<lparr>wzBundleExtensionDataPath = Ptr example_path\<rparr>) = Inr (hr, h'))"
  using Initialize_null_args_undefined
      [of "example_alloc_copy 9" example_live 1 example_uuid IID_IUnknown
          "\<lparr>wzBundleExtensionDataPath = Ptr example_path\<rparr>"]
  by (simp add: example_live_def)

text \<open>
  C10: the status that \<open>QueryInterface\<close> returns, and what it leaves in the output slot,
  depend on its arguments only. For any two heaps in which the object is live, whatever
  its reference count, its data path and its engine member in either, the same
  identifier and the same output-slot pointer give the same status and the same slot.
\<close>

theorem QueryInterface_status_independent_of_state:
  assumes "ext_objs h1 this = Some obj1"
    and "ext_objs h2 this = Some obj2"
  shows "\<exists>hr slot h1' h2'.
           QueryInterface uuidof_IBundleExtension h1 this riid ppvObject = Inr (hr, slot, h1') \<and>
           QueryInterface uuidof_IBundleExtension h2 this riid ppvObject = Inr (hr, slot, h2')"
proof (cases ppvObject)
  case NULL
  then show ?thesis
    by (simp add: QueryInterface_def)
next
  case (Ptr old)
  then show ?thesis
    by (simp add: QueryInterface_live[OF assms(1)] QueryInterface_live[OF assms(2)])
qed

theorem QueryInterface_status_independent_of_state_witness:
  "ext_objs example_live 1 = Some example_obj \<and>
   ext_objs example_shared 1 =
     Some (example_obj\<lparr>m_sczBundleExtensionDataPath := Ptr 9, m_cReferences := 2\<rparr>) \<and>
   (\<exists>hr slot h1' h2'.
      QueryInterface example_uuid example_live 1 IID_IUnknown (Ptr NULL) = Inr (hr, slot, h1') \<and>
      QueryInterface example_uuid example_shared 1 IID_IUnknown (Ptr NULL) = Inr (hr, slot, h2'))"
  using QueryInterface_status_independent_of_state
      [of example_live 1 example_obj example_shared
          "example_obj\<lparr>m_sczBundleExtensionDataPath := Ptr 9, m_cReferences := 2\<rparr>"
          example_uuid IID_IUnknown "Ptr NULL"]
  by (simp add: example_live_def example_shared_def)

text \<open>
  C6: \<open>Initialize\<close> copies the data-path string of the create-args structure into storage
  of the object by \<open>StrAllocString\<close>, called with the data path member of the object as
  destination, the string as source and the length 0, and returns the status of the
  copy as it is. With a string allocator that copies or fails, a live object and a
  data-path string \<open>s\<close>: \<open>Initialize\<close> returns the status of \<open>StrAllocString\<close>, and either
  that is \<open>S_OK\<close> and the object afterwards exposes exactly \<open>s\<close>, or it is the failure
  status of the copy.
\<close>

theorem Initialize_copies_data_path:
  assumes "copies_or_fails StrAllocString"
    and "ext_objs h this = Some obj"
    and "wzBundleExtensionDataPath args = Ptr s"
  shows "\<exists>hr h'.
           Initialize StrAllocString h this (Ptr args) = Inr (hr, h') \<and>
           hr = fst (StrAllocString (str_bufs h) (m_sczBundleExtensionDataPath obj) (Ptr s) 0) \<and>
           (hr = S_OK \<and> data_path h' this = Some s \<or> FAILED hr)"
proof -
  obtain hr p sh where
    call: "StrAllocString (str_bufs h) (m_sczBundleExtensionDataPath obj) (Ptr s) 0 = (hr, p, sh)"
    by (cases "StrAllocString (str_bufs h) (m_sczBundleExtensionDataPath obj) (Ptr s) 0") auto
  let ?h' = "h\<lparr>ext_objs := (ext_objs h)(this \<mapsto> obj\<lparr>m_sczBundleExtensionDataPath := p\<rparr>),
               str_bufs := sh\<rparr>"
  have ret: "Initialize StrAllocString h this (Ptr args) = Inr (hr, ?h')"
    using assms(2,3) call by (simp add: Initialize_def)
  have "case StrAllocString (str_bufs h) (m_sczBundleExtensionDataPath obj) (Ptr s) 0 of
          (hr, p, sh') \<Rightarrow> FAILED hr \<or> (hr = S_OK \<and> (\<exists>q. p = Ptr q \<and> sh' q = Some s))"
    by (rule assms(1)[unfolded copies_or_fails_def, THEN spec, THEN spec, THEN spec])
  then have "FAILED hr \<or> (hr = S_OK \<and> (\<exists>q. p = Ptr q \<and> sh q = Some s))"
    by (simp add: call)
  then have "hr = S_OK \<and> data_path ?h' this = Some s \<or> FAILED hr"
    by (auto simp add: data_path_def)
  with ret call show ?thesis
    by simp
qed

theorem Initialize_copies_data_path_witness:
  "copies_or_fails (example_alloc_copy 9) \<and>
   ext_objs example_live 1 = Some example_obj \<and>
   Initialize (example_alloc_copy 9) example_live 1
     (Ptr \<lparr>wzBundleExtensionDataPath = Ptr example_path\<rparr>) = Inr (S_OK, example_ready) \<and>
   data_path example_ready 1 = Some example_path"
proof -
  have c: "copies_or_fails (example_alloc_copy 9)"
    by (simp add: copies_or_fails_def example_alloc_copy_def)
  have l: "ext_objs example_live 1 = Some example_obj"
    by (simp add: example_live_def)
  have r: "Initialize (example_alloc_copy 9) example_live 1
     (Ptr \<lparr>wzBundleExtensionDataPath = Ptr example_path\<rparr>) = Inr (S_OK, example_ready)"
    by (simp add: Initialize_def example_alloc_copy_def example_live_def example_ready_def
        example_obj_def)
  show ?thesis
    using Initialize_copies_data_path
        [OF c l, of "\<lparr>wzBundleExtensionDataPath = Ptr example_path\<rparr>" example_path] c l r
    by (simp add: status_codes_distinct example_alloc_copy_def)
qed

section \<open>Sequences of calls: counting\<close>

lemma outstanding_Nil: "outstanding u [] = 1"
  by (simp add: outstanding_def increments_def releases_def)

lemma outstanding_Cons:
  "outstanding u (c # cs) =
     outstanding u cs + (if takes_reference u c then 1 else 0) - (if c = Call_Release then 1 else 0)"
  by (simp add: outstanding_def increments_def releases_def)

lemma outstanding_append:
  "outstanding u (xs @ ys) = outstanding u xs + outstanding u ys - 1"
  by (simp add: outstanding_def increments_def releases_def)

text \<open>The counter read as a signed value, while the count is below \<open>2 ^ 31\<close>.\<close>

lemma sint_count:
  "0 \<le> x \<Longrightarrow> x < 2 ^ 31 \<Longrightarrow> sint (word_of_int x :: 32 word) = x"
  by (simp add: int_word_sint)

section \<open>Sequences of calls: running them\<close>

lemma invoke_dead:
  "ext_objs h this = None \<Longrightarrow> invoke u h this c = Inl Dangling_pointer"
  by (simp add: invoke_def)

lemma run_dead:
  "ext_objs h this = None \<Longrightarrow> cs \<noteq> [] \<Longrightarrow> run u h this cs = Inl Dangling_pointer"
  by (cases cs) (simp_all add: invoke_dead)

lemma run_append:
  "run u h this (xs @ ys) =
     (case run u h this xs of
        Inl f \<Rightarrow> Inl f
      | Inr (rs, h1) \<Rightarrow>
          (case run u h1 this ys of
             Inl f \<Rightarrow> Inl f
           | Inr (rs', h2) \<Rightarrow> Inr (rs @ rs', h2)))"
  by (induction xs arbitrary: h) (auto split: sum.splits)

text \<open>
  One call that leaves a count between 1 and \<open>2 ^ 31\<close> changes the count and nothing
  else.
\<close>

lemma invoke_keeps:
  assumes live: "ext_objs h this = Some obj"
    and cnt: "m_cReferences obj = word_of_int c"
    and c: "1 \<le> c" "c \<le> 2 ^ 31"
    and c': "c' = c + (if takes_reference u x then 1 else 0) - (if x = Call_Release then 1 else 0)"
    and bounds: "1 \<le> c'" "c' \<le> 2 ^ 31"
  shows "\<exists>r. invoke u h this x =
           Inr (r, h\<lparr>ext_objs := (ext_objs h)(this \<mapsto> obj\<lparr>m_cReferences := word_of_int c'\<rparr>)\<rparr>)"
proof (cases x)
  case (Call_QueryInterface riid ppvObject)
  show ?thesis
  proof (cases ppvObject)
    case NULL
    with Call_QueryInterface have "c' = c"
      using c' by simp
    moreover have "h\<lparr>ext_objs := (ext_objs h)(this \<mapsto> obj\<lparr>m_cReferences := word_of_int c\<rparr>)\<rparr> = h"
      using live cnt by (simp add: fun_upd_idem)
    ultimately show ?thesis
      using live Call_QueryInterface NULL by (simp add: invoke_def QueryInterface_def)
  next
    case (Ptr old)
    show ?thesis
    proof (cases "riid = u \<or> riid = IID_IUnknown")
      case True
      then have "c' = c + 1"
        using c' Call_QueryInterface Ptr by simp
      then show ?thesis
        using live cnt Call_QueryInterface Ptr True
        by (simp add: invoke_def QueryInterface_live)
    next
      case False
      then have "c' = c"
        using c' Call_QueryInterface Ptr by simp
      moreover have "h\<lparr>ext_objs := (ext_objs h)(this \<mapsto> obj\<lparr>m_cReferences := word_of_int c\<rparr>)\<rparr> = h"
        using live cnt by (simp add: fun_upd_idem)
      ultimately show ?thesis
        using live Call_QueryInterface Ptr False
        by (simp add: invoke_def QueryInterface_live)
    qed
  qed
next
  case Call_AddRef
  then have "c' = c + 1"
    using c' by simp
  then show ?thesis
    using live cnt Call_AddRef by (simp add: invoke_def AddRef_live)
next
  case Call_Release
  then have eq: "c' = c - 1"
    using c' by simp
  have "sint (word_of_int c' :: 32 word) = c'"
    using bounds c eq by (intro sint_count) simp_all
  then have "0 < sint (m_cReferences obj - 1)"
    using cnt eq bounds by simp
  then show ?thesis
    using live cnt Call_Release eq by (simp add: invoke_def Release_keeps)
qed

text \<open>
  A sequence of calls after each of which the count is between 1 and \<open>2 ^ 31\<close> runs to
  its end, and changes the count and nothing else.
\<close>

lemma run_keeps:
  assumes "ext_objs h this = Some obj"
    and "m_cReferences obj = word_of_int c"
    and "1 \<le> c" "c \<le> 2 ^ 31"
    and "\<forall>k. 1 \<le> k \<and> k \<le> length cs \<longrightarrow>
           1 \<le> c + outstanding u (take k cs) - 1 \<and> c + outstanding u (take k cs) - 1 \<le> 2 ^ 31"
  shows "\<exists>rs. run u h this cs =
           Inr (rs, h\<lparr>ext_objs := (ext_objs h)(this \<mapsto>
                        obj\<lparr>m_cReferences := word_of_int (c + outstanding u cs - 1)\<rparr>)\<rparr>)"
  using assms
proof (induction cs arbitrary: h obj c)
  case Nil
  then show ?case
    by (simp add: outstanding_Nil fun_upd_idem)
next
  case (Cons x cs)
  define c' where "c' = c + (if takes_reference u x then 1 else 0) - (if x = Call_Release then 1 else 0)"
  have one: "c + outstanding u (take 1 (x # cs)) - 1 = c'"
    by (simp add: c'_def outstanding_Cons outstanding_Nil)
  have b: "1 \<le> c'" "c' \<le> 2 ^ 31"
    using Cons.prems(5)[rule_format, of 1] one by simp_all
  obtain r where step: "invoke u h this x =
      Inr (r, h\<lparr>ext_objs := (ext_objs h)(this \<mapsto> obj\<lparr>m_cReferences := word_of_int c'\<rparr>)\<rparr>)"
    using invoke_keeps[OF Cons.prems(1-4) c'_def b] by blast
  let ?obj = "obj\<lparr>m_cReferences := word_of_int c'\<rparr>"
  let ?h = "h\<lparr>ext_objs := (ext_objs h)(this \<mapsto> ?obj)\<rparr>"
  have rest: "\<forall>k. 1 \<le> k \<and> k \<le> length cs \<longrightarrow>
      1 \<le> c' + outstanding u (take k cs) - 1 \<and> c' + outstanding u (take k cs) - 1 \<le> 2 ^ 31"
  proof (intro allI impI)
    fix k assume k: "1 \<le> k \<and> k \<le> length cs"
    have "c + outstanding u (take (Suc k) (x # cs)) - 1 = c' + outstanding u (take k cs) - 1"
      by (simp add: c'_def outstanding_Cons)
    then show "1 \<le> c' + outstanding u (take k cs) - 1 \<and> c' + outstanding u (take k cs) - 1 \<le> 2 ^ 31"
      using Cons.prems(5)[rule_format, of "Suc k"] k by simp
  qed
  have weq: "c' + outstanding u cs - 1 = c + outstanding u (x # cs) - 1"
    by (simp add: c'_def outstanding_Cons)
  have "\<exists>rs. run u ?h this cs =
      Inr (rs, ?h\<lparr>ext_objs := (ext_objs ?h)(this \<mapsto>
                   ?obj\<lparr>m_cReferences := word_of_int (c' + outstanding u cs - 1)\<rparr>)\<rparr>)"
    by (rule Cons.IH[OF _ _ b rest]) simp_all
  then obtain rs where tail: "run u ?h this cs =
      Inr (rs, ?h\<lparr>ext_objs := (ext_objs ?h)(this \<mapsto>
                   ?obj\<lparr>m_cReferences := word_of_int (c' + outstanding u cs - 1)\<rparr>)\<rparr>)"
    by blast
  have heq: "?h\<lparr>ext_objs := (ext_objs ?h)(this \<mapsto>
                   ?obj\<lparr>m_cReferences := word_of_int (c' + outstanding u cs - 1)\<rparr>)\<rparr> =
      h\<lparr>ext_objs := (ext_objs h)(this \<mapsto>
                   obj\<lparr>m_cReferences := word_of_int (c + outstanding u (x # cs) - 1)\<rparr>)\<rparr>"
    unfolding weq by simp
  have "run u h this (x # cs) =
      Inr (r # rs, ?h\<lparr>ext_objs := (ext_objs ?h)(this \<mapsto>
                   ?obj\<lparr>m_cReferences := word_of_int (c' + outstanding u cs - 1)\<rparr>)\<rparr>)"
    using step tail by (simp only: run.simps sum.case prod.case)
  then have "run u h this (x # cs) =
      Inr (r # rs, h\<lparr>ext_objs := (ext_objs h)(this \<mapsto>
                   obj\<lparr>m_cReferences := word_of_int (c + outstanding u (x # cs) - 1)\<rparr>)\<rparr>)"
    by (simp only: heq)
  then show ?case
    by (rule exI)
qed

text \<open>
  The whole life of the object from a count \<open>c\<close>: as long as every call is made while the
  count is positive and the count never exceeds \<open>2 ^ 31\<close>, the sequence runs to its end;
  it leaves the object with the count, or, when the count has come down to zero, it
  has destroyed the object.
\<close>

lemma run_lifetime:
  assumes live: "ext_objs h this = Some obj"
    and cnt: "m_cReferences obj = word_of_int c"
    and c: "1 \<le> c" "c \<le> 2 ^ 31"
    and eng: "m_pEngine obj = Ptr e" "engine_refs h e = Some n"
    and bound: "\<forall>k. k \<le> length cs \<longrightarrow> c + outstanding u (take k cs) - 1 \<le> 2 ^ 31"
    and valid: "\<forall>k. k < length cs \<longrightarrow> 0 < c + outstanding u (take k cs) - 1"
  shows "\<exists>rs. run u h this cs =
     Inr (rs,
          if 0 < c + outstanding u cs - 1
          then h\<lparr>ext_objs := (ext_objs h)(this \<mapsto>
                    obj\<lparr>m_cReferences := word_of_int (c + outstanding u cs - 1)\<rparr>)\<rparr>
          else h\<lparr>ext_objs := (ext_objs h)(this := None),
                 str_bufs := (case m_sczBundleExtensionDataPath obj of
                                NULL \<Rightarrow> str_bufs h
                              | Ptr p \<Rightarrow> (str_bufs h)(p := None)),
                 engine_refs := (engine_refs h)(e \<mapsto> n - 1)\<rparr>)"
proof (cases "0 < c + outstanding u cs - 1")
  case True
  have "\<forall>k. 1 \<le> k \<and> k \<le> length cs \<longrightarrow>
      1 \<le> c + outstanding u (take k cs) - 1 \<and> c + outstanding u (take k cs) - 1 \<le> 2 ^ 31"
  proof (intro allI impI)
    fix k assume k: "1 \<le> k \<and> k \<le> length cs"
    have "0 < c + outstanding u (take k cs) - 1"
    proof (cases "k < length cs")
      case True
      then show ?thesis using valid by simp
    next
      case False
      with k have "take k cs = cs" by simp
      then show ?thesis using \<open>0 < c + outstanding u cs - 1\<close> by simp
    qed
    then show "1 \<le> c + outstanding u (take k cs) - 1 \<and> c + outstanding u (take k cs) - 1 \<le> 2 ^ 31"
      using bound k by simp
  qed
  from run_keeps[OF live cnt c this] True show ?thesis
    by simp
next
  case False
  then have ne: "cs \<noteq> []"
    using c by (auto simp add: outstanding_Nil)
  define xs where "xs = butlast cs"
  define x where "x = last cs"
  have cs: "cs = xs @ [x]"
    using ne by (simp add: xs_def x_def)
  have take_xs: "k \<le> length xs \<Longrightarrow> take k cs = take k xs" for k
    by (simp add: cs)
  have pos: "0 < c + outstanding u xs - 1"
    using valid[rule_format, of "length xs"] by (simp add: cs)
  have le: "c + outstanding u xs - 1 \<le> 2 ^ 31"
    using bound[rule_format, of "length xs"] by (simp add: cs)
  have step: "outstanding u cs =
      outstanding u xs + (if takes_reference u x then 1 else 0) - (if x = Call_Release then 1 else 0)"
    by (simp add: cs outstanding_append outstanding_Cons outstanding_Nil)
  have x: "x = Call_Release"
    using False pos step by (auto split: if_splits)
  have one: "c + outstanding u xs - 1 = 1"
    using False pos step x by simp
  have "\<forall>k. 1 \<le> k \<and> k \<le> length xs \<longrightarrow>
      1 \<le> c + outstanding u (take k xs) - 1 \<and> c + outstanding u (take k xs) - 1 \<le> 2 ^ 31"
  proof (intro allI impI)
    fix k assume k: "1 \<le> k \<and> k \<le> length xs"
    then have "k < length cs" "k \<le> length cs"
      by (simp_all add: cs)
    then show "1 \<le> c + outstanding u (take k xs) - 1 \<and> c + outstanding u (take k xs) - 1 \<le> 2 ^ 31"
      using valid[rule_format, of k] bound[rule_format, of k] take_xs[of k] k by simp
  qed
  from run_keeps[OF live cnt c this] obtain rs where
    before: "run u h this xs =
      Inr (rs, h\<lparr>ext_objs := (ext_objs h)(this \<mapsto> obj\<lparr>m_cReferences := 1\<rparr>)\<rparr>)"
    using one by auto
  let ?h = "h\<lparr>ext_objs := (ext_objs h)(this \<mapsto> obj\<lparr>m_cReferences := 1\<rparr>)\<rparr>"
  have "Release ?h this =
      Inr (0, ?h\<lparr>ext_objs := (ext_objs ?h)(this := None),
                 str_bufs := (case m_sczBundleExtensionDataPath (obj\<lparr>m_cReferences := 1\<rparr>) of
                                NULL \<Rightarrow> str_bufs ?h
                              | Ptr p \<Rightarrow> (str_bufs ?h)(p := None)),
                 engine_refs := (engine_refs ?h)(e \<mapsto> n - 1)\<rparr>)"
    by (rule Release_destroys) (simp_all add: eng)
  then have last: "invoke u ?h this Call_Release =
      Inr (Ret_Release 0,
           h\<lparr>ext_objs := (ext_objs h)(this := None),
             str_bufs := (case m_sczBundleExtensionDataPath obj of
                            NULL \<Rightarrow> str_bufs h
                          | Ptr p \<Rightarrow> (str_bufs h)(p := None)),
             engine_refs := (engine_refs h)(e \<mapsto> n - 1)\<rparr>)"
    by (simp add: invoke_def split: ptr.split)
  have "run u h this cs =
      Inr (rs @ [Ret_Release 0],
           h\<lparr>ext_objs := (ext_objs h)(this := None),
             str_bufs := (case m_sczBundleExtensionDataPath obj of
                            NULL \<Rightarrow> str_bufs h
                          | Ptr p \<Rightarrow> (str_bufs h)(p := None)),
             engine_refs := (engine_refs h)(e \<mapsto> n - 1)\<rparr>)"
    unfolding cs x run_append before using last by simp
  with False show ?thesis
    by simp
qed

text \<open>A call after the count has come down to zero is a call on a deleted object.\<close>

lemma run_after_destruction:
  assumes live: "ext_objs h this = Some obj"
    and cnt: "m_cReferences obj = word_of_int c"
    and c: "1 \<le> c" "c \<le> 2 ^ 31"
    and eng: "m_pEngine obj = Ptr e" "engine_refs h e = Some n"
    and bound: "\<forall>k. k \<le> length cs \<longrightarrow> c + outstanding u (take k cs) - 1 \<le> 2 ^ 31"
    and dead: "\<exists>k. k < length cs \<and> c + outstanding u (take k cs) - 1 \<le> 0"
  shows "run u h this cs = Inl Dangling_pointer"
proof -
  define k where "k = (LEAST k. k < length cs \<and> c + outstanding u (take k cs) - 1 \<le> 0)"
  have k: "k < length cs \<and> c + outstanding u (take k cs) - 1 \<le> 0"
    unfolding k_def using dead by (rule LeastI_ex)
  have least: "j < k \<Longrightarrow> 0 < c + outstanding u (take j cs) - 1" for j
  proof -
    assume "j < k"
    then have "\<not> (j < length cs \<and> c + outstanding u (take j cs) - 1 \<le> 0)"
      unfolding k_def by (rule not_less_Least)
    with \<open>j < k\<close> k show ?thesis by simp
  qed
  define xs where "xs = take k cs"
  define ys where "ys = drop k cs"
  have cs: "cs = xs @ ys" and ys: "ys \<noteq> []" and len: "length xs = k"
    using k by (simp_all add: xs_def ys_def)
  have tk: "j \<le> k \<Longrightarrow> take j xs = take j cs" for j
    by (simp add: xs_def min_def)
  have b: "\<forall>j. j \<le> length xs \<longrightarrow> c + outstanding u (take j xs) - 1 \<le> 2 ^ 31"
    using bound k tk by (simp add: len)
  have v: "\<forall>j. j < length xs \<longrightarrow> 0 < c + outstanding u (take j xs) - 1"
    using least tk by (simp add: len)
  have "\<not> 0 < c + outstanding u xs - 1"
    using k by (simp add: xs_def)
  with run_lifetime[OF live cnt c eng b v] obtain rs where
    "run u h this xs =
       Inr (rs, h\<lparr>ext_objs := (ext_objs h)(this := None),
                  str_bufs := (case m_sczBundleExtensionDataPath obj of
                                 NULL \<Rightarrow> str_bufs h
                               | Ptr p \<Rightarrow> (str_bufs h)(p := None)),
                  engine_refs := (engine_refs h)(e \<mapsto> n - 1)\<rparr>)"
    by auto
  then show ?thesis
    unfolding cs run_append using ys by (simp add: run_dead)
qed

section \<open>The lifetime of a constructed object\<close>

lemma ctor_result:
  assumes "CBextBaseBundleExtension_ctor h0 this (Ptr e) = Inr h"
  shows "\<exists>n. engine_refs h0 e = Some n \<and>
           h = h0\<lparr>engine_refs := (engine_refs h0)(e \<mapsto> n + 1),
                  ext_objs := (ext_objs h0)(this \<mapsto>
                     \<lparr>m_pEngine = Ptr e, m_sczBundleExtensionDataPath = NULL,
                      m_cReferences = 1\<rparr>)\<rparr>"
  using assms
  by (auto simp add: CBextBaseBundleExtension_ctor_def Engine_AddRef_def split: option.splits)

lemma outstanding_le_iff:
  "outstanding u cs \<le> 2 ^ 31 \<longleftrightarrow> 1 + increments u cs \<le> 2 ^ 31 + releases cs"
  by (simp add: outstanding_def) linarith

lemma outstanding_pos_iff:
  "0 < outstanding u cs \<longleftrightarrow> releases cs < 1 + increments u cs"
  by (auto simp add: outstanding_def)

lemma outstanding_zero_iff:
  "outstanding u cs = 0 \<longleftrightarrow> releases cs = 1 + increments u cs"
  by (auto simp add: outstanding_def)

text \<open>
  C2, amended: the counter is a 32-bit \<open>long\<close>. Take an object just constructed and any
  sequence of \<open>AddRef\<close>, \<open>Release\<close> and \<open>QueryInterface\<close> calls on it during which never
  more than \<open>2 ^ 31\<close> references are outstanding (the one of the construction, one per
  \<open>AddRef\<close> and one per successful \<open>QueryInterface\<close>, less one per \<open>Release\<close>). If every
  call is made while fewer references have been released than taken, every call
  returns, and the sequence has destroyed the object exactly if the number of
  \<open>Release\<close> calls equals the number of increments, which then is the case at its last
  call, a \<open>Release\<close>, and at no call before. A call made after that is a call on a
  deleted object and undefined, so that the object is not destroyed a second time.
\<close>

theorem destroyed_when_releases_equal_increments:
  assumes "CBextBaseBundleExtension_ctor h0 this (Ptr e) = Inr h"
    and "\<forall>k. k \<le> length cs \<longrightarrow>
           1 + increments u (take k cs) \<le> 2 ^ 31 + releases (take k cs)"
  shows "((\<forall>k. k < length cs \<longrightarrow> releases (take k cs) < 1 + increments u (take k cs)) \<longrightarrow>
            completes u h this cs \<and>
            (destroyed_by u h this cs \<longleftrightarrow> releases cs = 1 + increments u cs) \<and>
            (\<forall>k. k < length cs \<longrightarrow> \<not> destroyed_by u h this (take k cs))) \<and>
         ((\<exists>k. k < length cs \<and> 1 + increments u (take k cs) \<le> releases (take k cs)) \<longrightarrow>
            run u h this cs = Inl Dangling_pointer)"
proof -
  from ctor_result[OF assms(1)] obtain n where
    n: "engine_refs h0 e = Some n" and
    h: "h = h0\<lparr>engine_refs := (engine_refs h0)(e \<mapsto> n + 1),
                ext_objs := (ext_objs h0)(this \<mapsto>
                   \<lparr>m_pEngine = Ptr e, m_sczBundleExtensionDataPath = NULL,
                    m_cReferences = 1\<rparr>)\<rparr>"
    by blast
  let ?obj = "\<lparr>m_pEngine = Ptr e, m_sczBundleExtensionDataPath = NULL, m_cReferences = 1\<rparr>"
  have live: "ext_objs h this = Some ?obj"
    by (simp add: h)
  have cnt: "m_cReferences ?obj = word_of_int 1"
    by simp
  have eng: "m_pEngine ?obj = Ptr e" "engine_refs h e = Some (n + 1)"
    by (simp_all add: h)
  have "\<forall>k. k \<le> length cs \<longrightarrow> outstanding u (take k cs) \<le> 2 ^ 31"
    using assms(2) by (simp only: outstanding_le_iff)
  then have bound: "\<forall>k. k \<le> length cs \<longrightarrow> 1 + outstanding u (take k cs) - 1 \<le> 2 ^ 31"
    by simp
  have part1: "completes u h this cs \<and>
      (destroyed_by u h this cs \<longleftrightarrow> releases cs = 1 + increments u cs) \<and>
      (\<forall>k. k < length cs \<longrightarrow> \<not> destroyed_by u h this (take k cs))"
    if v: "\<forall>k. k < length cs \<longrightarrow> releases (take k cs) < 1 + increments u (take k cs)"
  proof -
    have valid: "\<forall>k. k < length cs \<longrightarrow> 0 < 1 + outstanding u (take k cs) - 1"
      using v by (simp add: outstanding_pos_iff)
    from run_lifetime[OF live cnt _ _ eng bound valid] obtain rs where
      r: "run u h this cs =
        Inr (rs,
             if 0 < 1 + outstanding u cs - 1
             then h\<lparr>ext_objs := (ext_objs h)(this \<mapsto>
                       ?obj\<lparr>m_cReferences := word_of_int (1 + outstanding u cs - 1)\<rparr>)\<rparr>
             else h\<lparr>ext_objs := (ext_objs h)(this := None),
                    str_bufs := (case m_sczBundleExtensionDataPath ?obj of
                                   NULL \<Rightarrow> str_bufs h
                                 | Ptr p \<Rightarrow> (str_bufs h)(p := None)),
                    engine_refs := (engine_refs h)(e \<mapsto> n + 1 - 1)\<rparr>)"
      by auto
    have nonneg: "0 \<le> outstanding u cs"
    proof (cases cs rule: rev_cases)
      case Nil
      then show ?thesis by (simp add: outstanding_Nil)
    next
      case (snoc xs x)
      have "0 < outstanding u xs"
        using valid[rule_format, of "length xs"] by (simp add: snoc)
      then show ?thesis
        by (simp add: snoc outstanding_append outstanding_Cons outstanding_Nil)
    qed
    have c1: "completes u h this cs"
      by (simp add: completes_def r)
    have "destroyed_by u h this cs \<longleftrightarrow> outstanding u cs = 0"
      using nonneg by (auto simp add: destroyed_by_def r)
    then have c2: "destroyed_by u h this cs \<longleftrightarrow> releases cs = 1 + increments u cs"
      by (simp only: outstanding_zero_iff)
    have c3: "\<not> destroyed_by u h this (take k cs)" if k: "k < length cs" for k
    proof -
      have b': "\<forall>j. j \<le> length (take k cs) \<longrightarrow>
          1 + outstanding u (take j (take k cs)) - 1 \<le> 2 ^ 31"
        using bound k by (simp add: min_def)
      have v': "\<forall>j. j < length (take k cs) \<longrightarrow>
          0 < 1 + outstanding u (take j (take k cs)) - 1"
        using valid k by (simp add: min_def)
      have p: "0 < 1 + outstanding u (take k cs) - 1"
        using valid k by simp
      from run_lifetime[OF live cnt _ _ eng b' v'] p obtain rs' where
        "run u h this (take k cs) =
          Inr (rs', h\<lparr>ext_objs := (ext_objs h)(this \<mapsto>
               ?obj\<lparr>m_cReferences := word_of_int (1 + outstanding u (take k cs) - 1)\<rparr>)\<rparr>)"
        by auto
      then show ?thesis
        by (simp add: destroyed_by_def)
    qed
    from c1 c2 c3 show ?thesis
      by blast
  qed
  have part2: "run u h this cs = Inl Dangling_pointer"
    if d: "\<exists>k. k < length cs \<and> 1 + increments u (take k cs) \<le> releases (take k cs)"
  proof -
    have "\<exists>k. k < length cs \<and> 1 + outstanding u (take k cs) - 1 \<le> 0"
      using d by (auto simp add: outstanding_def)
    from run_after_destruction[OF live cnt _ _ eng bound this] show ?thesis
      by simp
  qed
  from part1 part2 show ?thesis
    by blast
qed

lemma increments_le_length: "increments u cs \<le> length cs"
  by (simp add: increments_def)

lemma short_sequence_bounded:
  assumes "length cs < 2 ^ 31"
  shows "\<forall>k. k \<le> length cs \<longrightarrow>
           1 + increments u (take k cs) \<le> 2 ^ 31 + releases (take k cs)"
proof (intro allI impI)
  fix k assume "k \<le> length cs"
  have "increments u (take k cs) \<le> length (take k cs)"
    by (rule increments_le_length)
  also have "\<dots> \<le> length cs"
    by simp
  finally show "1 + increments u (take k cs) \<le> 2 ^ 31 + releases (take k cs)"
    using assms by simp
qed

lemma example_ctor:
  "CBextBaseBundleExtension_ctor example_heap 1 (Ptr 5) = Inr example_live"
  by (simp add: CBextBaseBundleExtension_ctor_def Engine_AddRef_def example_heap_def
      example_live_def example_obj_def)

theorem destroyed_when_releases_equal_increments_witness:
  "CBextBaseBundleExtension_ctor example_heap 1 (Ptr 5) = Inr example_live \<and>
   completes example_uuid example_live 1 example_calls \<and>
   destroyed_by example_uuid example_live 1 example_calls \<and>
   releases example_calls = 3 \<and>
   increments example_uuid example_calls = 2 \<and>
   \<not> destroyed_by example_uuid example_live 1 (take 5 example_calls) \<and>
   run example_uuid example_live 1 (example_calls @ [Call_AddRef]) = Inl Dangling_pointer"
proof -
  have len: "length example_calls = 6"
    by (simp add: example_calls_def)
  have b: "\<forall>k. k \<le> length example_calls \<longrightarrow>
      1 + increments example_uuid (take k example_calls) \<le> 2 ^ 31 + releases (take k example_calls)"
    by (rule short_sequence_bounded) (simp add: len)
  have b': "\<forall>k. k \<le> length (example_calls @ [Call_AddRef]) \<longrightarrow>
      1 + increments example_uuid (take k (example_calls @ [Call_AddRef]))
        \<le> 2 ^ 31 + releases (take k (example_calls @ [Call_AddRef]))"
    by (rule short_sequence_bounded) (simp add: len)
  have v: "\<forall>k. k < length example_calls \<longrightarrow>
      releases (take k example_calls) < 1 + increments example_uuid (take k example_calls)"
  proof (intro allI impI)
    fix k assume "k < length example_calls"
    then have "k = 0 \<or> k = 1 \<or> k = 2 \<or> k = 3 \<or> k = 4 \<or> k = 5"
      unfolding len by arith
    then show "releases (take k example_calls) < 1 + increments example_uuid (take k example_calls)"
      by (auto simp add: example_calls_def releases_def increments_def)
  qed
  have counts: "releases example_calls = 3" "increments example_uuid example_calls = 2"
    by (simp_all add: example_calls_def releases_def increments_def example_uuid_def
        IID_IUnknown_def)
  have d: "\<exists>k. k < length (example_calls @ [Call_AddRef]) \<and>
      1 + increments example_uuid (take k (example_calls @ [Call_AddRef]))
        \<le> releases (take k (example_calls @ [Call_AddRef]))"
    by (rule exI[of _ 6]) (simp add: len counts)
  show ?thesis
    using destroyed_when_releases_equal_increments[OF example_ctor b] v
      destroyed_when_releases_equal_increments[OF example_ctor b'] d counts example_ctor
    by (simp add: len)
qed

lemma run_AddRefs:
  "ext_objs h this = Some obj \<Longrightarrow>
   \<exists>rs. run u h this (replicate n Call_AddRef) =
     Inr (rs, h\<lparr>ext_objs := (ext_objs h)(this \<mapsto>
                  obj\<lparr>m_cReferences := m_cReferences obj + of_nat n\<rparr>)\<rparr>)"
proof (induction n arbitrary: h obj)
  case 0
  then show ?case
    by (simp add: fun_upd_idem)
next
  case (Suc n)
  let ?obj = "obj\<lparr>m_cReferences := m_cReferences obj + 1\<rparr>"
  let ?h = "h\<lparr>ext_objs := (ext_objs h)(this \<mapsto> ?obj)\<rparr>"
  have step: "invoke u h this Call_AddRef = Inr (Ret_AddRef (m_cReferences obj + 1), ?h)"
    using Suc.prems by (simp add: invoke_def AddRef_live)
  have "ext_objs ?h this = Some ?obj"
    by simp
  from Suc.IH[OF this] obtain rs where
    tail: "run u ?h this (replicate n Call_AddRef) =
       Inr (rs, ?h\<lparr>ext_objs := (ext_objs ?h)(this \<mapsto>
                    ?obj\<lparr>m_cReferences := m_cReferences ?obj + of_nat n\<rparr>)\<rparr>)"
    by blast
  have heq: "?h\<lparr>ext_objs := (ext_objs ?h)(this \<mapsto>
                    ?obj\<lparr>m_cReferences := m_cReferences ?obj + of_nat n\<rparr>)\<rparr> =
      h\<lparr>ext_objs := (ext_objs h)(this \<mapsto>
                    obj\<lparr>m_cReferences := m_cReferences obj + of_nat (Suc n)\<rparr>)\<rparr>"
    by (simp add: ac_simps)
  have "run u h this (replicate (Suc n) Call_AddRef) =
      Inr (Ret_AddRef (m_cReferences obj + 1) # rs,
           ?h\<lparr>ext_objs := (ext_objs ?h)(this \<mapsto>
                    ?obj\<lparr>m_cReferences := m_cReferences ?obj + of_nat n\<rparr>)\<rparr>)"
    using step tail by (simp only: replicate_Suc run.simps sum.case prod.case)
  then have "run u h this (replicate (Suc n) Call_AddRef) =
      Inr (Ret_AddRef (m_cReferences obj + 1) # rs,
           h\<lparr>ext_objs := (ext_objs h)(this \<mapsto>
                    obj\<lparr>m_cReferences := m_cReferences obj + of_nat (Suc n)\<rparr>)\<rparr>)"
    by (simp only: heq)
  then show ?case
    by (rule exI)
qed

text \<open>
  C2 as it is stated fails when the counter overflows. After the construction and
  \<open>2 ^ 31\<close> calls of \<open>AddRef\<close> the counter, a 32-bit \<open>long\<close>, holds \<open>- (2 ^ 31) + 1\<close>; the
  first \<open>Release\<close> decrements it to a value that is not greater than zero and destroys
  the object, whereas one release does not equal \<open>2 ^ 31 + 1\<close> increments.
\<close>

theorem overflow_destroys_early_counterexample:
  "CBextBaseBundleExtension_ctor example_heap 1 (Ptr 5) = Inr example_live \<and>
   destroyed_by example_uuid example_live 1 overflow_calls \<and>
   releases overflow_calls = 1 \<and>
   increments example_uuid overflow_calls = 2 ^ 31 \<and>
   releases overflow_calls \<noteq> 1 + increments example_uuid overflow_calls"
proof -
  have live: "ext_objs example_live 1 = Some example_obj"
    by (simp add: example_live_def)
  let ?h = "example_live\<lparr>ext_objs := (ext_objs example_live)(1 \<mapsto>
              example_obj\<lparr>m_cReferences := m_cReferences example_obj + of_nat (2 ^ 31)\<rparr>)\<rparr>"
  from run_AddRefs[OF live, of example_uuid "2 ^ 31"] obtain rs where
    r: "run example_uuid example_live 1 (replicate (2 ^ 31) Call_AddRef) = Inr (rs, ?h)"
    by blast
  have "\<exists>h'. Release ?h 1 = Inr (0, h') \<and> ext_objs h' 1 = None"
    using Release_destroys
      [of ?h 1 "example_obj\<lparr>m_cReferences := m_cReferences example_obj + of_nat (2 ^ 31)\<rparr>" 5 4]
    by (simp add: example_live_def example_obj_def)
  then obtain h' where inv: "invoke example_uuid ?h 1 Call_Release = Inr (Ret_Release 0, h')"
    and gone: "ext_objs h' 1 = None"
    by (auto simp add: invoke_def)
  have "run example_uuid example_live 1 overflow_calls = Inr (rs @ [Ret_Release 0], h')"
    unfolding overflow_calls_def run_append r
    by (simp only: run.simps inv sum.case prod.case)
  then have "destroyed_by example_uuid example_live 1 overflow_calls"
    by (simp only: destroyed_by_def sum.case prod.case gone)
  moreover have "releases overflow_calls = 1" "increments example_uuid overflow_calls = 2 ^ 31"
    by (simp_all add: overflow_calls_def releases_def increments_def)
  ultimately show ?thesis
    using example_ctor by simp
qed

section \<open>The engine reference\<close>

lemma scenario_run:
  assumes "engine_refs h0 e = Some R"
  shows "run u
      (h0\<lparr>engine_refs := (engine_refs h0)(e \<mapsto> R + 1),
          ext_objs := (ext_objs h0)(this \<mapsto>
            \<lparr>m_pEngine = Ptr e, m_sczBundleExtensionDataPath = NULL, m_cReferences = 1\<rparr>)\<rparr>)
      this [Call_AddRef, Call_AddRef, Call_Release, Call_Release, Call_Release] =
    Inr ([Ret_AddRef 2, Ret_AddRef 3, Ret_Release 2, Ret_Release 1, Ret_Release 0],
         h0\<lparr>ext_objs := (ext_objs h0)(this := None)\<rparr>)"
proof -
  have "(engine_refs h0)(e \<mapsto> R) = engine_refs h0"
    using assms by (simp add: fun_upd_idem)
  then show ?thesis
    by (simp add: invoke_def AddRef_def InterlockedIncrement_def Release_def
        InterlockedDecrement_def delete_this_def CBextBaseBundleExtension_dtor_def
        Engine_Release_def Let_def)
qed

text \<open>
  C7: the reference count of the host engine is balanced over the life of the object.
  The constructor, given a pointer to an engine object with the count \<open>R\<close>, leaves the
  engine with the count \<open>R + 1\<close> and the object with the count 1 and with that pointer,
  not null, as its engine member. Then two calls of \<open>AddRef\<close> return 2 and 3, three
  calls of \<open>Release\<close> return 2, 1 and 0, the third destroys the object, and the engine
  counts are as before the construction. More generally, for every sequence of calls
  within the range of the counter and made before the destruction: while the object
  lives, the engine count is \<open>R + 1\<close> and the engine member is that pointer; once
  the count of the object has reached zero, the object is gone and the engine counts
  are as before the construction.
\<close>

theorem engine_reference_balanced:
  assumes "engine_refs h0 e = Some R"
  shows "\<exists>h. CBextBaseBundleExtension_ctor h0 this (Ptr e) = Inr h \<and>
           engine_refs h = (engine_refs h0)(e \<mapsto> R + 1) \<and>
           ext_objs h this =
             Some \<lparr>m_pEngine = Ptr e, m_sczBundleExtensionDataPath = NULL, m_cReferences = 1\<rparr> \<and>
           run u h this [Call_AddRef, Call_AddRef, Call_Release, Call_Release, Call_Release] =
             Inr ([Ret_AddRef 2, Ret_AddRef 3, Ret_Release 2, Ret_Release 1, Ret_Release 0],
                  h0\<lparr>ext_objs := (ext_objs h0)(this := None)\<rparr>) \<and>
           (\<forall>cs.
              (\<forall>k. k \<le> length cs \<longrightarrow>
                 1 + increments u (take k cs) \<le> 2 ^ 31 + releases (take k cs)) \<and>
              (\<forall>k. k < length cs \<longrightarrow> releases (take k cs) < 1 + increments u (take k cs)) \<longrightarrow>
              (\<exists>rs h'. run u h this cs = Inr (rs, h') \<and>
                 (if releases cs = 1 + increments u cs
                  then ext_objs h' this = None \<and> engine_refs h' = engine_refs h0
                  else (\<exists>obj. ext_objs h' this = Some obj \<and> m_pEngine obj = Ptr e) \<and>
                       engine_refs h' = (engine_refs h0)(e \<mapsto> R + 1))))"
proof -
  let ?obj = "\<lparr>m_pEngine = Ptr e, m_sczBundleExtensionDataPath = NULL, m_cReferences = 1\<rparr>"
  let ?h = "h0\<lparr>engine_refs := (engine_refs h0)(e \<mapsto> R + 1),
               ext_objs := (ext_objs h0)(this \<mapsto> ?obj)\<rparr>"
  have ctor: "CBextBaseBundleExtension_ctor h0 this (Ptr e) = Inr ?h"
    using assms by (simp add: CBextBaseBundleExtension_ctor_def Engine_AddRef_def)
  have live: "ext_objs ?h this = Some ?obj"
    by simp
  have cnt: "m_cReferences ?obj = word_of_int 1"
    by simp
  have eng: "m_pEngine ?obj = Ptr e" "engine_refs ?h e = Some (R + 1)"
    by simp_all
  have same: "(engine_refs h0)(e \<mapsto> R) = engine_refs h0"
    using assms by (simp add: fun_upd_idem)
  have general: "\<exists>rs h'. run u ?h this cs = Inr (rs, h') \<and>
      (if releases cs = 1 + increments u cs
       then ext_objs h' this = None \<and> engine_refs h' = engine_refs h0
       else (\<exists>obj. ext_objs h' this = Some obj \<and> m_pEngine obj = Ptr e) \<and>
            engine_refs h' = (engine_refs h0)(e \<mapsto> R + 1))"
    if b: "\<forall>k. k \<le> length cs \<longrightarrow>
             1 + increments u (take k cs) \<le> 2 ^ 31 + releases (take k cs)"
      and v: "\<forall>k. k < length cs \<longrightarrow> releases (take k cs) < 1 + increments u (take k cs)"
    for cs
  proof -
    have "\<forall>k. k \<le> length cs \<longrightarrow> outstanding u (take k cs) \<le> 2 ^ 31"
      using b by (simp only: outstanding_le_iff)
    then have bound: "\<forall>k. k \<le> length cs \<longrightarrow> 1 + outstanding u (take k cs) - 1 \<le> 2 ^ 31"
      by simp
    have valid: "\<forall>k. k < length cs \<longrightarrow> 0 < 1 + outstanding u (take k cs) - 1"
      using v by (simp add: outstanding_pos_iff)
    from run_lifetime[OF live cnt _ _ eng bound valid] obtain rs where
      r: "run u ?h this cs =
        Inr (rs,
             if 0 < 1 + outstanding u cs - 1
             then ?h\<lparr>ext_objs := (ext_objs ?h)(this \<mapsto>
                       ?obj\<lparr>m_cReferences := word_of_int (1 + outstanding u cs - 1)\<rparr>)\<rparr>
             else ?h\<lparr>ext_objs := (ext_objs ?h)(this := None),
                    str_bufs := (case m_sczBundleExtensionDataPath ?obj of
                                   NULL \<Rightarrow> str_bufs ?h
                                 | Ptr p \<Rightarrow> (str_bufs ?h)(p := None)),
                    engine_refs := (engine_refs ?h)(e \<mapsto> R + 1 - 1)\<rparr>)"
      by auto
    show ?thesis
    proof (cases "releases cs = 1 + increments u cs")
      case True
      then have "\<not> 0 < 1 + outstanding u cs - 1"
        by (simp add: outstanding_def)
      with r True same show ?thesis
        by simp
    next
      case False
      have "0 \<le> outstanding u cs"
      proof (cases cs rule: rev_cases)
        case Nil
        then show ?thesis by (simp add: outstanding_Nil)
      next
        case (snoc xs x)
        have "0 < outstanding u xs"
          using valid[rule_format, of "length xs"] by (simp add: snoc)
        then show ?thesis
          by (simp add: snoc outstanding_append outstanding_Cons outstanding_Nil)
      qed
      moreover have "outstanding u cs \<noteq> 0"
        using False by (simp only: outstanding_zero_iff not_False_eq_True)
      ultimately have "0 < 1 + outstanding u cs - 1"
        by simp
      with r False show ?thesis
        by simp
    qed
  qed
  from ctor live scenario_run[OF assms, of u this] general show ?thesis
    by (intro exI[of _ ?h]) (simp del: run.simps)
qed

theorem engine_reference_balanced_witness:
  "engine_refs example_heap 5 = Some 3 \<and>
   CBextBaseBundleExtension_ctor example_heap 1 (Ptr 5) = Inr example_live \<and>
   engine_refs example_live 5 = Some 4 \<and>
   run example_uuid example_live 1
       [Call_AddRef, Call_AddRef, Call_Release, Call_Release, Call_Release] =
     Inr ([Ret_AddRef 2, Ret_AddRef 3, Ret_Release 2, Ret_Release 1, Ret_Release 0],
          example_heap)"
proof -
  have R: "engine_refs example_heap 5 = Some 3"
    by (simp add: example_heap_def)
  from engine_reference_balanced[OF R, of 1 example_uuid] obtain h where
    "CBextBaseBundleExtension_ctor example_heap 1 (Ptr 5) = Inr h"
    and "run example_uuid h 1 [Call_AddRef, Call_AddRef, Call_Release, Call_Release, Call_Release] =
           Inr ([Ret_AddRef 2, Ret_AddRef 3, Ret_Release 2, Ret_Release 1, Ret_Release 0],
                example_heap\<lparr>ext_objs := (ext_objs example_heap)(1 := None)\<rparr>)"
    by blast
  moreover have "example_heap\<lparr>ext_objs := (ext_objs example_heap)(1 := None)\<rparr> = example_heap"
    by (simp add: example_heap_def)
  ultimately show ?thesis
    using R example_ctor by (simp add: example_live_def del: run.simps)
qed

section \<open>Failed calls\<close>

lemma refs_agree_refl: "refs_agree this h h"
  by (simp add: refs_agree_def split: option.split)

lemma Initialize_refs_agree:
  "Initialize StrAllocString h this pCreateArgs = Inr (hr, h') \<Longrightarrow> refs_agree this h h'"
  by (auto simp add: Initialize_def refs_agree_def Let_def
      split: ptr.splits option.splits prod.splits)

lemma QueryInterface_failed_same_heap:
  assumes "QueryInterface u h this riid ppvObject = Inr (hr, slot, h')"
    and "FAILED hr"
  shows "h' = h"
proof (cases ppvObject)
  case NULL
  with assms(1) show ?thesis
    by (simp add: QueryInterface_def)
next
  case (Ptr old)
  with assms status_codes_distinct(10) show ?thesis
    by (auto simp add: QueryInterface_def split: if_splits sum.splits)
qed

text \<open>
  Heaps that agree on the reference counting of the object answer every call alike.
\<close>

lemma invoke_refs_agree:
  assumes "refs_agree this h h'"
  shows "case (invoke u h this c, invoke u h' this c) of
           (Inl f, Inl f') \<Rightarrow> f = f'
         | (Inr (r, g), Inr (r', g')) \<Rightarrow> r = r' \<and> refs_agree this g g'
         | _ \<Rightarrow> False"
proof (cases "ext_objs h this")
  case None
  with assms have "ext_objs h' this = None"
    by (simp add: refs_agree_def split: option.splits)
  with None show ?thesis
    by (simp add: invoke_dead)
next
  case (Some obj)
  with assms obtain obj' where
    obj': "ext_objs h' this = Some obj'"
      "m_cReferences obj = m_cReferences obj'" "m_pEngine obj = m_pEngine obj'"
    by (auto simp add: refs_agree_def split: option.splits)
  have eng: "engine_refs h = engine_refs h'"
    and others: "\<And>a. a \<noteq> this \<Longrightarrow> ext_objs h a = ext_objs h' a"
    using assms by (simp_all add: refs_agree_def)
  show ?thesis
  proof (cases c)
    case (Call_QueryInterface riid ppvObject)
    show ?thesis
    proof (cases ppvObject)
      case NULL
      with Call_QueryInterface Some obj' assms show ?thesis
        by (simp add: invoke_def QueryInterface_def)
    next
      case (Ptr old)
      with Call_QueryInterface Some obj' eng others show ?thesis
        by (simp add: invoke_def QueryInterface_live refs_agree_def assms)
    qed
  next
    case Call_AddRef
    with Some obj' eng others show ?thesis
      by (simp add: invoke_def AddRef_live refs_agree_def)
  next
    case Call_Release
    show ?thesis
    proof (cases "0 < sint (m_cReferences obj - 1)")
      case True
      with Call_Release Some obj' eng others show ?thesis
        by (simp add: invoke_def Release_keeps refs_agree_def)
    next
      case False
      show ?thesis
      proof (cases "m_pEngine obj")
        case NULL
        with False Call_Release Some obj' eng others show ?thesis
          by (simp add: invoke_def Release_def InterlockedDecrement_def Let_def
              delete_this_def CBextBaseBundleExtension_dtor_def refs_agree_def
              split: ptr.split)
      next
        case (Ptr e)
        show ?thesis
        proof (cases "engine_refs h e")
          case None
          with Ptr False Call_Release Some obj' eng show ?thesis
            by (simp add: invoke_def Release_def InterlockedDecrement_def Let_def
                delete_this_def CBextBaseBundleExtension_dtor_def Engine_Release_def)
        next
          case (Some n)
          have "Release h this =
              Inr (0, h\<lparr>ext_objs := (ext_objs h)(this := None),
                        str_bufs := (case m_sczBundleExtensionDataPath obj of
                                       NULL \<Rightarrow> str_bufs h
                                     | Ptr p \<Rightarrow> (str_bufs h)(p := None)),
                        engine_refs := (engine_refs h)(e \<mapsto> n - 1)\<rparr>)"
            using \<open>ext_objs h this = Some obj\<close> False Ptr Some by (rule Release_destroys)
          moreover have "Release h' this =
              Inr (0, h'\<lparr>ext_objs := (ext_objs h')(this := None),
                         str_bufs := (case m_sczBundleExtensionDataPath obj' of
                                        NULL \<Rightarrow> str_bufs h'
                                      | Ptr p \<Rightarrow> (str_bufs h')(p := None)),
                         engine_refs := (engine_refs h')(e \<mapsto> n - 1)\<rparr>)"
            using obj' False Ptr Some eng by (intro Release_destroys) simp_all
          ultimately show ?thesis
            using Call_Release \<open>ext_objs h this = Some obj\<close> obj' eng others
            by (simp add: invoke_def refs_agree_def)
        qed
      qed
    qed
  qed
qed

lemma run_refs_agree:
  "refs_agree this h h' \<Longrightarrow> same_outcome this (run u h this cs) (run u h' this cs)"
proof (induction cs arbitrary: h h')
  case Nil
  then show ?case
    by (simp add: same_outcome_def)
next
  case (Cons c cs)
  from invoke_refs_agree[OF Cons.prems, of u c] show ?case
  proof (cases "invoke u h this c")
    case (Inl f)
    with invoke_refs_agree[OF Cons.prems, of u c] show ?thesis
      by (auto simp add: same_outcome_def split: sum.splits)
  next
    case (Inr p)
    obtain r g where p: "p = (r, g)"
      by (cases p)
    with Inr invoke_refs_agree[OF Cons.prems, of u c] obtain g' where
      g': "invoke u h' this c = Inr (r, g')" "refs_agree this g g'"
      by (auto split: sum.splits)
    from Cons.IH[OF g'(2)] show ?thesis
      using Inr p g'(1) by (auto simp add: same_outcome_def split: sum.splits)
  qed
qed

text \<open>As many calls of \<open>Release\<close> as the count destroy the object.\<close>

lemma outstanding_releases:
  "outstanding u (replicate m Call_Release) = 1 - int m"
  by (simp add: outstanding_def increments_def releases_def)

lemma run_releases:
  assumes live: "ext_objs h this = Some obj"
    and cnt: "m_cReferences obj = word_of_int c"
    and c: "1 \<le> c" "c \<le> 2 ^ 31"
    and eng: "m_pEngine obj = Ptr e" "engine_refs h e = Some n"
  shows "\<exists>rs. run u h this (replicate (nat c) Call_Release) =
     Inr (rs, h\<lparr>ext_objs := (ext_objs h)(this := None),
                str_bufs := (case m_sczBundleExtensionDataPath obj of
                               NULL \<Rightarrow> str_bufs h
                             | Ptr p \<Rightarrow> (str_bufs h)(p := None)),
                engine_refs := (engine_refs h)(e \<mapsto> n - 1)\<rparr>)"
proof -
  let ?cs = "replicate (nat c) Call_Release"
  have tk: "k \<le> nat c \<Longrightarrow> take k ?cs = replicate k Call_Release" for k
    by (simp add: min_def)
  have bound: "\<forall>k. k \<le> length ?cs \<longrightarrow> c + outstanding u (take k ?cs) - 1 \<le> 2 ^ 31"
    using c by (simp add: tk outstanding_releases)
  have valid: "\<forall>k. k < length ?cs \<longrightarrow> 0 < c + outstanding u (take k ?cs) - 1"
    using c by (auto simp add: tk outstanding_releases)
  have "\<not> 0 < c + outstanding u ?cs - 1"
    using c by (simp add: outstanding_releases)
  with run_lifetime[OF live cnt c eng bound valid] show ?thesis
    by simp
qed

text \<open>
  C8: a failed \<open>QueryInterface\<close> or \<open>Initialize\<close> leaves the object valid for reference
  counting. Take a live object with a count \<open>c\<close> between 1 and \<open>2 ^ 31\<close> whose engine
  member points to an engine object, and a call of \<open>QueryInterface\<close> or of \<open>Initialize\<close>
  that returns a failure status. Afterwards the object is still live with the same
  count and the same engine member, and the engine counts are the same; a failed
  \<open>QueryInterface\<close> leaves the whole heap as it was. Every sequence of \<open>AddRef\<close>,
  \<open>Release\<close> and \<open>QueryInterface\<close> calls has the same outcome after the failed call as
  without it (the same returned values and the same reference counts, or the same
  fault), and \<open>c\<close> calls of \<open>Release\<close> after the failed call destroy the object and
  release the engine once.
\<close>

theorem failed_call_leaves_object_releasable:
  assumes "ext_objs h this = Some obj"
    and "m_pEngine obj = Ptr e"
    and "engine_refs h e = Some n"
    and "m_cReferences obj = word_of_int c"
    and "1 \<le> c"
    and "c \<le> 2 ^ 31"
    and "QueryInterface u h this riid ppvObject = Inr (hr, slot, h') \<or>
         Initialize StrAllocString h this pCreateArgs = Inr (hr, h')"
    and "FAILED hr"
  shows "(\<exists>obj'. ext_objs h' this = Some obj' \<and> m_cReferences obj' = m_cReferences obj \<and>
            m_pEngine obj' = Ptr e) \<and>
         engine_refs h' = engine_refs h \<and>
         (QueryInterface u h this riid ppvObject = Inr (hr, slot, h') \<longrightarrow> h' = h) \<and>
         (\<forall>cs. same_outcome this (run u h this cs) (run u h' this cs)) \<and>
         (\<exists>rs h''. run u h' this (replicate (nat c) Call_Release) = Inr (rs, h'') \<and>
            ext_objs h'' this = None \<and> engine_refs h'' = (engine_refs h)(e \<mapsto> n - 1))"
proof -
  have agree: "refs_agree this h h'"
    using assms(7)
  proof
    assume "QueryInterface u h this riid ppvObject = Inr (hr, slot, h')"
    then have "h' = h"
      using assms(8) by (rule QueryInterface_failed_same_heap)
    then show ?thesis
      by (simp add: refs_agree_refl)
  next
    assume "Initialize StrAllocString h this pCreateArgs = Inr (hr, h')"
    then show ?thesis
      by (rule Initialize_refs_agree)
  qed
  then obtain obj' where
    obj': "ext_objs h' this = Some obj'" "m_cReferences obj' = m_cReferences obj"
      "m_pEngine obj' = Ptr e"
    and eng: "engine_refs h' = engine_refs h"
    using assms(1,2) by (auto simp add: refs_agree_def split: option.splits)
  have same: "\<forall>cs. same_outcome this (run u h this cs) (run u h' this cs)"
    using agree by (simp add: run_refs_agree)
  have cnt: "m_cReferences obj' = word_of_int c"
    using obj'(2) assms(4) by simp
  have "engine_refs h' e = Some n"
    using eng assms(3) by simp
  from run_releases[OF obj'(1) cnt assms(5,6) obj'(3) this, of u] eng
  have rel: "\<exists>rs h''. run u h' this (replicate (nat c) Call_Release) = Inr (rs, h'') \<and>
      ext_objs h'' this = None \<and> engine_refs h'' = (engine_refs h)(e \<mapsto> n - 1)"
    by auto
  have "QueryInterface u h this riid ppvObject = Inr (hr, slot, h') \<longrightarrow> h' = h"
    using assms(8) by (auto dest: QueryInterface_failed_same_heap)
  with obj' eng same rel show ?thesis
    by blast
qed

theorem failed_call_leaves_object_releasable_witness:
  "Initialize example_alloc_fail example_shared 1
     (Ptr \<lparr>wzBundleExtensionDataPath = Ptr example_path\<rparr>) = Inr (E_OUTOFMEMORY, example_shared) \<and>
   FAILED E_OUTOFMEMORY \<and>
   ext_objs example_shared 1 =
     Some (example_obj\<lparr>m_sczBundleExtensionDataPath := Ptr 9, m_cReferences := 2\<rparr>) \<and>
   engine_refs example_shared 5 = Some 4 \<and>
   (\<exists>rs h''. run example_uuid example_shared 1 (replicate (nat 2) Call_Release) = Inr (rs, h'') \<and>
      ext_objs h'' 1 = None \<and> engine_refs h'' = (engine_refs example_shared)(5 \<mapsto> 4 - 1))"
proof -
  have i: "Initialize example_alloc_fail example_shared 1
      (Ptr \<lparr>wzBundleExtensionDataPath = Ptr example_path\<rparr>) = Inr (E_OUTOFMEMORY, example_shared)"
    by (simp add: Initialize_def example_alloc_fail_def example_shared_def example_obj_def)
  have l: "ext_objs example_shared 1 =
      Some (example_obj\<lparr>m_sczBundleExtensionDataPath := Ptr 9, m_cReferences := 2\<rparr>)"
    by (simp add: example_shared_def)
  have p: "m_pEngine (example_obj\<lparr>m_sczBundleExtensionDataPath := Ptr 9, m_cReferences := 2\<rparr>) = Ptr 5"
    by (simp add: example_obj_def)
  have n: "engine_refs example_shared 5 = Some 4"
    by (simp add: example_shared_def)
  have c: "m_cReferences (example_obj\<lparr>m_sczBundleExtensionDataPath := Ptr 9, m_cReferences := 2\<rparr>) =
      word_of_int 2"
    by simp
  have f: "FAILED E_OUTOFMEMORY"
    by (rule status_codes_distinct)
  from failed_call_leaves_object_releasable
      [where u = example_uuid and riid = IID_IUnknown and ppvObject = NULL and slot = NULL,
        OF l p n c _ _ disjI2[OF i] f]
  have "\<exists>rs h''. run example_uuid example_shared 1 (replicate (nat 2) Call_Release) = Inr (rs, h'') \<and>
      ext_objs h'' 1 = None \<and> engine_refs h'' = (engine_refs example_shared)(5 \<mapsto> 4 - 1)"
    by simp
  with i l n f show ?thesis
    by simp
qed

end
